theory Spec2Isabelle
  imports Complex_Main
begin

section \<open>The module-level pH grid of \<^verbatim>\<open>ph_diagram.py\<close>\<close>

text \<open>
  The source works on numpy \<^verbatim>\<open>float64\<close> arrays. They are modelled as lists of
  real numbers: arithmetic is exact, so rounding, overflow to \<^verbatim>\<open>inf\<close> and
  \<^verbatim>\<open>nan\<close> are outside this model. An operation between an array and a scalar is
  the pointwise \<open>map\<close>, one between two arrays of equal length the pointwise \<open>map2\<close>.
\<close>

definition arange :: "real \<Rightarrow> real \<Rightarrow> real \<Rightarrow> real list" where
  \<comment> \<open>\<^verbatim>\<open>np.arange(start, stop, step)\<close>: \<open>\<lceil>(stop - start) / step\<rceil>\<close> points \<open>start + i * step\<close>.\<close>
  "arange start stop step =
     map (\<lambda>i. start + real i * step) [0..<nat \<lceil>(stop - start) / step\<rceil>]"

definition pH :: "real list" where
  "pH = arange 0 14.1 0.1"

definition hydronium_concentration :: "real list" where
  "hydronium_concentration = map (\<lambda>p. 10 powr (- p)) pH"

definition pKw :: real where
  "pKw = 14"

definition pOH :: "real list" where
  "pOH = map (\<lambda>p. pKw - p) pH"

definition hydroxide_concentration :: "real list" where
  "hydroxide_concentration = map (\<lambda>p. 10 powr (- p)) pOH"


section \<open>The class \<^verbatim>\<open>Acid\<close>\<close>

datatype error = ValueError

record Acid =
  pKa :: "real list"
  Ka :: "real list"
  Ca :: real

definition Acid_init :: "real list \<Rightarrow> real \<Rightarrow> error + Acid" where
  \<comment> \<open>\<^verbatim>\<open>Acid.__init__\<close>: three assignments, no check and no \<^verbatim>\<open>raise\<close>.\<close>
  "Acid_init pKa_arg acid_concetration =
     Inr \<lparr>pKa = pKa_arg, Ka = map (\<lambda>p. 10 powr (- p)) pKa_arg, Ca = acid_concetration\<rparr>"


subsection \<open>\<^verbatim>\<open>Acid.alpha\<close>\<close>

definition reduce_mul :: "real list \<Rightarrow> real list \<Rightarrow> real list" where
  \<comment> \<open>\<^verbatim>\<open>reduce(mul, ks, init)\<close>: a left fold; each step multiplies the array by a scalar.\<close>
  "reduce_mul ks init = foldl (\<lambda>acc k. map (\<lambda>x. x * k) acc) init ks"

definition numerators_on :: "real list \<Rightarrow> Acid \<Rightarrow> real list list" where
  \<comment> \<open>The loop of \<^verbatim>\<open>alpha\<close> over \<^verbatim>\<open>range(0, self.pKa.size + 1)\<close>; \<open>hs\<close> is the
      hydronium array, a module global in the source.\<close>
  "numerators_on hs a =
     map (\<lambda>i. reduce_mul (take i (Ka a)) (map (\<lambda>h. h ^ (length (pKa a) - i)) hs))
       [0..<length (pKa a) + 1]"

definition py_sum :: "nat \<Rightarrow> real list list \<Rightarrow> real list" where
  \<comment> \<open>The builtin \<^verbatim>\<open>sum\<close>: a left fold of \<open>+\<close> from the integer 0, which numpy
      broadcasts to the length \<open>m\<close> of the arrays.\<close>
  "py_sum m arrs = foldl (\<lambda>s v. map2 (+) s v) (replicate m 0) arrs"

definition alpha_on :: "real list \<Rightarrow> Acid \<Rightarrow> real list list" where
  "alpha_on hs a =
     (let numerators = numerators_on hs a
      in map (\<lambda>numerator. map2 (/) numerator (py_sum (length hs) numerators)) numerators)"

definition alpha :: "Acid \<Rightarrow> real list list" where
  "alpha a = alpha_on hydronium_concentration a"


subsection \<open>\<^verbatim>\<open>Acid.log_concentrations\<close>\<close>




subsection \<open>\<^verbatim>\<open>Acid.formulas\<close>\<close>

fun str_nat :: "nat \<Rightarrow> string" where
  "str_nat n =
     (if n < 10 then [char_of (48 + n)]
      else str_nat (n div 10) @ [char_of (48 + n mod 10)])"

declare str_nat.simps [simp del]

definition str_int :: "int \<Rightarrow> string" where
  \<comment> \<open>How an f-string renders a Python integer.\<close>
  "str_int i = (if i < 0 then CHR ''-'' # str_nat (nat (- i)) else str_nat (nat i))"

definition charge_of :: "int \<Rightarrow> int \<Rightarrow> int" where
  "charge_of number_of_species i = number_of_species - (number_of_species + i - 1)"

definition charge_str :: "int \<Rightarrow> string" where
  "charge_str charge =
     (if charge = 0 then ''''
      else if charge = - 1 then ''-''
      else str_int charge)"

definition label_at :: "int \<Rightarrow> int \<Rightarrow> string" where
  \<comment> \<open>One pass of the loop over \<^verbatim>\<open>range(1, number_of_species + 1)\<close>.\<close>
  "label_at number_of_species i =
     (let idx = number_of_species - i;
          charge = charge_str (charge_of number_of_species i)
      in if idx = 0 then ''B'' @ charge
         else if idx = 1 then ''HB'' @ charge
         else ''H'' @ str_int idx @ ''B'' @ charge)"

definition labels_of :: "nat \<Rightarrow> string list" where
  "labels_of number_of_species =
     map (\<lambda>i. label_at (int number_of_species) (int i)) [1..<number_of_species + 1]"

definition replace_B_A :: "string \<Rightarrow> string" where
  \<comment> \<open>\<^verbatim>\<open>formula.replace('B', 'A')\<close>\<close>
  "replace_B_A formula = map (\<lambda>c. if c = CHR ''B'' then CHR ''A'' else c) formula"

definition formulas ::
  "(string \<Rightarrow> string) \<Rightarrow> (string \<Rightarrow> string) \<Rightarrow> Acid \<Rightarrow> string \<Rightarrow> error + string list" where
  \<comment> \<open>\<open>latex_name\<close> and \<open>html_name\<close> stand for \<^verbatim>\<open>Substance.from_formula(f).latex_name\<close>
      and \<^verbatim>\<open>.html_name\<close> of the external package chempy.\<close>
  "formulas latex_name html_name a output =
     (let labels = labels_of (length (alpha a))
      in if output = ''raw'' then Inr (map replace_B_A labels)
         else if output = ''latex'' then Inr (map replace_B_A (map latex_name labels))
         else if output = ''html'' then Inr (map replace_B_A (map html_name labels))
         else Inl ValueError)"


section \<open>The distribution formula as the specification words it\<close>

definition numerator_spec :: "real list \<Rightarrow> nat \<Rightarrow> real \<Rightarrow> nat \<Rightarrow> real" where
  \<comment> \<open>\<^verbatim>\<open>numerator[k] = (product of Ka[0..k-1]) * hydroniumConcentration ^ (n - k)\<close>\<close>
  "numerator_spec ka n h k = prod_list (take k ka) * h ^ (n - k)"

definition alpha_spec :: "real list \<Rightarrow> nat \<Rightarrow> real \<Rightarrow> nat \<Rightarrow> real" where
  \<comment> \<open>\<^verbatim>\<open>alpha[k] = numerator[k] / sum_j numerator[j]\<close>, \<open>j = 0..n\<close>\<close>
  "alpha_spec ka n h k = numerator_spec ka n h k / (\<Sum>j\<le>n. numerator_spec ka n h j)"


section \<open>Auxiliary facts\<close>

subsection \<open>The grid\<close>

lemma length_pH: "length pH = 141"
  by (simp add: pH_def arange_def)

lemma nth_pH: "j < 141 \<Longrightarrow> pH ! j = real j / 10"
  by (simp add: pH_def arange_def)

lemma length_hydronium: "length hydronium_concentration = length pH"
  by (simp add: hydronium_concentration_def)

lemma nth_hydronium: "j < length pH \<Longrightarrow> hydronium_concentration ! j = 10 powr (- (pH ! j))"
  by (simp add: hydronium_concentration_def)

lemma hydronium_pos: "j < length pH \<Longrightarrow> 0 < hydronium_concentration ! j"
  by (simp add: hydronium_concentration_def)

text \<open>The grid runs over the tenths from 0 to 14: the value 4.76 is not one of its points.\<close>

lemma pKa_value_off_grid: "4.76 \<notin> set pH"
proof
  assume "4.76 \<in> set pH"
  then obtain j where j: "j < length pH" and eq: "pH ! j = 4.76"
    by (auto simp: in_set_conv_nth)
  then have "real j / 10 = 4.76" by (simp add: length_pH nth_pH)
  then have "real (25 * j) = real 1190" by simp
  then have "25 * j = 1190" by (simp only: of_nat_eq_iff)
  then show False by presburger
qed

subsection \<open>The two folds\<close>

lemma reduce_mul_eq: "reduce_mul ks init = map (\<lambda>x. x * prod_list ks) init"
  unfolding reduce_mul_def
proof (induction ks arbitrary: init)
  case Nil
  show ?case by simp
next
  case (Cons k ks)
  show ?case by (simp add: Cons.IH mult.assoc)
qed

lemma length_py_sum:
  assumes "\<forall>v \<in> set arrs. length v = m"
  shows "length (py_sum m arrs) = m"
proof -
  have "\<forall>v \<in> set arrs. length v = length s \<Longrightarrow>
        length (foldl (\<lambda>s v. map2 (+) s v) s arrs) = length s" for s :: "real list"
    by (induction arrs arbitrary: s) auto
  from this [of "replicate m 0"] assms show ?thesis
    by (simp add: py_sum_def)
qed

lemma nth_py_sum:
  assumes "\<forall>v \<in> set arrs. length v = m" and "j < m"
  shows "py_sum m arrs ! j = (\<Sum>v\<leftarrow>arrs. v ! j)"
proof -
  have "\<forall>v \<in> set arrs. length v = length s \<Longrightarrow> j < length s \<Longrightarrow>
        foldl (\<lambda>s v. map2 (+) s v) s arrs ! j = s ! j + (\<Sum>v\<leftarrow>arrs. v ! j)" for s :: "real list"
    by (induction arrs arbitrary: s) auto
  from this [of "replicate m 0"] assms show ?thesis
    by (simp add: py_sum_def)
qed

subsection \<open>The numerators and their sum\<close>

lemma length_numerators_on: "length (numerators_on hs a) = length (pKa a) + 1"
  by (simp add: numerators_on_def)

lemma numerators_on_eq:
  "numerators_on hs a =
     map (\<lambda>i. map (\<lambda>h. numerator_spec (Ka a) (length (pKa a)) h i) hs) [0..<length (pKa a) + 1]"
  by (simp add: numerators_on_def reduce_mul_eq numerator_spec_def mult.commute)

lemma numerators_on_lengths: "\<forall>v \<in> set (numerators_on hs a). length v = length hs"
  by (auto simp: numerators_on_def reduce_mul_eq)

lemma nth_numerators_on:
  assumes "k \<le> length (pKa a)"
  shows "numerators_on hs a ! k = map (\<lambda>h. numerator_spec (Ka a) (length (pKa a)) h k) hs"
  using assms unfolding numerators_on_eq by (simp del: upt_Suc)

lemma py_sum_numerators:
  assumes "j < length hs"
  shows "py_sum (length hs) (numerators_on hs a) ! j =
         (\<Sum>i\<le>length (pKa a). numerator_spec (Ka a) (length (pKa a)) (hs ! j) i)"
proof -
  have "py_sum (length hs) (numerators_on hs a) ! j = (\<Sum>v\<leftarrow>numerators_on hs a. v ! j)"
    using numerators_on_lengths assms by (rule nth_py_sum)
  also have "\<dots> = (\<Sum>i\<leftarrow>[0..<length (pKa a) + 1].
                      numerator_spec (Ka a) (length (pKa a)) (hs ! j) i)"
    using assms by (simp add: numerators_on_eq comp_def del: upt_Suc)
  also have "\<dots> = (\<Sum>i\<le>length (pKa a). numerator_spec (Ka a) (length (pKa a)) (hs ! j) i)"
    by (simp add: interv_sum_list_conv_sum_set_nat atLeast0AtMost
          atLeastLessThanSuc_atLeastAtMost del: upt_Suc)
  finally show ?thesis .
qed

text \<open>
  The facts below on \<open>numerator_spec\<close> and \<open>alpha_spec\<close> are facts of the formula in
  exact arithmetic, for strictly positive constants and hydronium concentration.
\<close>

lemma numerator_spec_pos:
  assumes "\<forall>x \<in> set ka. 0 < x" and "0 < h"
  shows "0 < numerator_spec ka n h i"
proof -
  have "0 < prod_list xs" if "\<forall>x \<in> set xs. 0 < x" for xs :: "real list"
    using that by (induction xs) auto
  moreover have "\<forall>x \<in> set (take i ka). 0 < x"
    using assms(1) by (meson in_set_takeD)
  ultimately have "0 < prod_list (take i ka)" by blast
  then show ?thesis using assms(2) by (simp add: numerator_spec_def)
qed

lemma numerator_sum_pos:
  assumes "\<forall>x \<in> set ka. 0 < x" and "0 < h"
  shows "0 < (\<Sum>i\<le>n. numerator_spec ka n h i)"
  by (rule sum_pos) (use assms numerator_spec_pos in auto)

subsection \<open>The fractions\<close>

lemma length_alpha_on: "length (alpha_on hs a) = length (pKa a) + 1"
  by (simp add: alpha_on_def Let_def length_numerators_on)

lemma length_nth_alpha_on:
  assumes "k \<le> length (pKa a)"
  shows "length (alpha_on hs a ! k) = length hs"
proof -
  have k: "k < length (numerators_on hs a)" using assms by (simp add: length_numerators_on)
  then have "numerators_on hs a ! k \<in> set (numerators_on hs a)" by simp
  then have "length (numerators_on hs a ! k) = length hs" using numerators_on_lengths by blast
  moreover have "length (py_sum (length hs) (numerators_on hs a)) = length hs"
    using numerators_on_lengths by (rule length_py_sum)
  ultimately show ?thesis using k by (simp add: alpha_on_def Let_def)
qed

lemma nth_alpha_on:
  assumes "k \<le> length (pKa a)" and "j < length hs"
  shows "alpha_on hs a ! k ! j = alpha_spec (Ka a) (length (pKa a)) (hs ! j) k"
proof -
  have k: "k < length (numerators_on hs a)" using assms by (simp add: length_numerators_on)
  have ls: "length (py_sum (length hs) (numerators_on hs a)) = length hs"
    using numerators_on_lengths by (rule length_py_sum)
  have "alpha_on hs a ! k ! j =
        map2 (/) (numerators_on hs a ! k) (py_sum (length hs) (numerators_on hs a)) ! j"
    using k by (simp add: alpha_on_def Let_def)
  also have "\<dots> = numerator_spec (Ka a) (length (pKa a)) (hs ! j) k /
                   py_sum (length hs) (numerators_on hs a) ! j"
    using assms ls by (simp add: nth_numerators_on)
  finally show ?thesis using assms(2) by (simp add: py_sum_numerators alpha_spec_def)
qed

lemma alpha_spec_sum_one:
  assumes "\<forall>x \<in> set ka. 0 < x" and "0 < h"
  shows "(\<Sum>k\<le>n. alpha_spec ka n h k) = 1"
proof -
  let ?S = "\<Sum>i\<le>n. numerator_spec ka n h i"
  have S: "0 < ?S" using assms by (rule numerator_sum_pos)
  have "(\<Sum>k\<le>n. alpha_spec ka n h k) = ?S / ?S"
    unfolding alpha_spec_def by (simp only: sum_divide_distrib)
  then show ?thesis using S by simp
qed

lemma alpha_on_column_sum:
  assumes "j < length hs"
  shows "(\<Sum>c\<leftarrow>alpha_on hs a. c ! j) =
         (\<Sum>k\<le>length (pKa a). alpha_spec (Ka a) (length (pKa a)) (hs ! j) k)"
proof -
  have "(\<Sum>c\<leftarrow>alpha_on hs a. c ! j) = (\<Sum>k = 0..<length (alpha_on hs a). alpha_on hs a ! k ! j)"
    by (simp add: sum_list_sum_nth)
  also have "\<dots> = (\<Sum>k\<le>length (pKa a). alpha_on hs a ! k ! j)"
    by (simp add: length_alpha_on atLeast0AtMost atLeastLessThanSuc_atLeastAtMost)
  also have "\<dots> = (\<Sum>k\<le>length (pKa a). alpha_spec (Ka a) (length (pKa a)) (hs ! j) k)"
    by (rule sum.cong) (use assms in \<open>auto simp: nth_alpha_on\<close>)
  finally show ?thesis .
qed

lemma alpha_spec_pos:
  assumes "\<forall>x \<in> set ka. 0 < x" and "0 < h"
  shows "0 < alpha_spec ka n h k"
  unfolding alpha_spec_def
  using numerator_spec_pos [OF assms] numerator_sum_pos [OF assms] by simp

lemma alpha_spec_le_one:
  assumes "\<forall>x \<in> set ka. 0 < x" and "0 < h" and "k \<le> n"
  shows "alpha_spec ka n h k \<le> 1"
proof -
  have "numerator_spec ka n h k \<le> (\<Sum>i\<le>n. numerator_spec ka n h i)"
    by (rule member_le_sum) (use assms numerator_spec_pos [OF assms(1,2)] in \<open>auto intro: less_imp_le\<close>)
  then show ?thesis
    unfolding alpha_spec_def using numerator_sum_pos [OF assms(1,2), of n] by simp
qed

lemma alpha_spec_less_one:
  assumes "\<forall>x \<in> set ka. 0 < x" and "0 < h" and "k \<le> n" and "0 < n"
  shows "alpha_spec ka n h k < 1"
proof -
  let ?f = "numerator_spec ka n h"
  have k: "k \<in> {..n}" using assms(3) by simp
  have split: "sum ?f {..n} = ?f k + sum ?f ({..n} - {k})"
    using k by (simp add: sum.remove)
  obtain m where m: "m \<in> {..n} - {k}"
    using assms(4) by (cases "k = 0") auto
  have "0 < sum ?f ({..n} - {k})"
    by (rule sum_pos) (use m numerator_spec_pos [OF assms(1,2)] in auto)
  then have "?f k < sum ?f {..n}" using split by simp
  then show ?thesis
    unfolding alpha_spec_def using numerator_sum_pos [OF assms(1,2), of n] by simp
qed

lemma Acid_init_fields:
  assumes "Acid_init pKa_arg c = Inr a"
  shows "pKa a = pKa_arg" and "Ka a = map (\<lambda>p. 10 powr (- p)) pKa_arg" and "Ca a = c"
  using assms by (auto simp: Acid_init_def)

lemma Acid_init_Ka_pos:
  assumes "Acid_init pKa_arg c = Inr a"
  shows "\<forall>x \<in> set (Ka a). 0 < x"
  using assms by (auto simp: Acid_init_def)


subsection \<open>The monoprotic acid with pKa 4.76 around its crossing point\<close>

lemma ten_powr_lower_a: "11 / 10 < (10::real) powr (3 / 50)"
proof (rule ccontr)
  assume "\<not> 11 / 10 < (10::real) powr (3 / 50)"
  then have "(10::real) powr (3 / 50) \<le> 11 / 10" by simp
  then have "((10::real) powr (3 / 50)) powr 50 \<le> (11 / 10) powr 50"
    by (intro powr_mono2) simp_all
  moreover have "((10::real) powr (3 / 50)) powr 50 = 10 powr 3" by (simp add: powr_powr)
  moreover have "(10::real) powr 3 = 1000" by simp
  moreover have "((11::real) / 10) powr 50 = (11 / 10) ^ 50" by simp
  moreover have "((11::real) / 10) ^ 50 < 1000" by (simp add: power_divide)
  ultimately show False by simp
qed

lemma ten_powr_lower_b: "21 / 20 < (10::real) powr (1 / 25)"
proof (rule ccontr)
  assume "\<not> 21 / 20 < (10::real) powr (1 / 25)"
  then have "(10::real) powr (1 / 25) \<le> 21 / 20" by simp
  then have "((10::real) powr (1 / 25)) powr 25 \<le> (21 / 20) powr 25"
    by (intro powr_mono2) simp_all
  moreover have "((10::real) powr (1 / 25)) powr 25 = 10 powr 1" by (simp add: powr_powr)
  moreover have "((21::real) / 20) powr 25 = (21 / 20) ^ 25" by simp
  moreover have "((21::real) / 20) ^ 25 < 10" by (simp add: power_divide)
  ultimately show False by simp
qed

lemma monoprotic_alpha_spec:
  "alpha_spec [K] (Suc 0) h 0 = h / (h + K)" "alpha_spec [K] (Suc 0) h (Suc 0) = K / (h + K)"
  by (simp_all add: alpha_spec_def numerator_spec_def add.commute)

lemma hydronium_above_Ka:
  assumes "j \<le> 47"
  shows "11 / 10 * 10 powr (- 4.76) < (10::real) powr (- (real j / 10))"
proof -
  have "(3::real) / 50 \<le> 4.76 - real j / 10" using assms by simp
  then have "(10::real) powr (3 / 50) \<le> 10 powr (4.76 - real j / 10)"
    by (intro powr_mono) simp_all
  with ten_powr_lower_a have "11 / 10 < (10::real) powr (4.76 - real j / 10)"
    by (rule less_le_trans)
  then have "11 / 10 * 10 powr (- 4.76) < (10::real) powr (4.76 - real j / 10) * 10 powr (- 4.76)"
    by simp
  also have "\<dots> = 10 powr (- (real j / 10))"
    by (simp add: powr_add [symmetric])
  finally show ?thesis .
qed

lemma hydronium_below_Ka:
  assumes "48 \<le> j"
  shows "21 / 20 * 10 powr (- (real j / 10)) < (10::real) powr (- 4.76)"
proof -
  have "(1::real) / 25 \<le> real j / 10 - 4.76" using assms by simp
  then have "(10::real) powr (1 / 25) \<le> 10 powr (real j / 10 - 4.76)"
    by (intro powr_mono) simp_all
  with ten_powr_lower_b have "21 / 20 < (10::real) powr (real j / 10 - 4.76)"
    by (rule less_le_trans)
  then have "21 / 20 * 10 powr (- (real j / 10)) <
      (10::real) powr (real j / 10 - 4.76) * 10 powr (- (real j / 10))"
    by simp
  also have "\<dots> = 10 powr (- 4.76)"
    by (simp add: powr_add [symmetric])
  finally show ?thesis .
qed

lemma fraction_bounds:
  fixes h K :: real
  assumes "0 < K" and "11 / 10 * K < h"
  shows "0.52 < h / (h + K)" and "K / (h + K) < 0.48"
proof -
  have pos: "0 < h + K" using assms by simp
  show "0.52 < h / (h + K)" using pos assms by (simp add: pos_less_divide_eq)
  show "K / (h + K) < 0.48" using pos assms by (simp add: pos_divide_less_eq)
qed

lemma fraction_bounds':
  fixes h K :: real
  assumes "0 < h" and "21 / 20 * h < K"
  shows "h / (h + K) < 0.49" and "0.51 < K / (h + K)"
proof -
  have pos: "0 < h + K" using assms by simp
  show "h / (h + K) < 0.49" using pos assms by (simp add: pos_divide_less_eq)
  show "0.51 < K / (h + K)" using pos assms by (simp add: pos_less_divide_eq)
qed

lemma monoprotic_alpha_nth:
  assumes "Acid_init [4.76] c = Inr a" and "j < length pH"
  shows "alpha a ! 0 ! j = 10 powr (- (real j / 10)) / (10 powr (- (real j / 10)) + 10 powr (- 4.76))"
    and "alpha a ! 1 ! j = 10 powr (- 4.76) / (10 powr (- (real j / 10)) + 10 powr (- 4.76))"
proof -
  note f = Acid_init_fields [OF assms(1)]
  have j: "j < length hydronium_concentration" using assms(2) by (simp add: length_hydronium)
  have h: "hydronium_concentration ! j = 10 powr (- (real j / 10))"
    using assms(2) by (simp add: nth_hydronium nth_pH length_pH)
  have "alpha a ! 0 ! j = alpha_spec (Ka a) (length (pKa a)) (hydronium_concentration ! j) 0"
    unfolding alpha_def using j by (intro nth_alpha_on) simp_all
  then show "alpha a ! 0 ! j = 10 powr (- (real j / 10)) / (10 powr (- (real j / 10)) + 10 powr (- 4.76))"
    by (simp add: f h monoprotic_alpha_spec)
  have "alpha a ! 1 ! j = alpha_spec (Ka a) (length (pKa a)) (hydronium_concentration ! j) 1"
    unfolding alpha_def using j by (intro nth_alpha_on) (simp_all add: f)
  then show "alpha a ! 1 ! j = 10 powr (- 4.76) / (10 powr (- (real j / 10)) + 10 powr (- 4.76))"
    by (simp add: f h monoprotic_alpha_spec)
qed


subsection \<open>The labels\<close>

lemma labels_of_3: "labels_of 3 = [''H2B'', ''HB-'', ''B-2'']"
  by code_simp

lemma length_labels_of: "length (labels_of m) = m"
  by (simp add: labels_of_def)

lemma nth_labels_of:
  assumes "1 \<le> i" and "i \<le> m"
  shows "labels_of m ! (i - 1) = label_at (int m) (int i)"
proof -
  have "i - 1 < length [1..<m + 1]" using assms by simp
  then have "labels_of m ! (i - 1) = label_at (int m) (int ([1..<m + 1] ! (i - 1)))"
    unfolding labels_of_def by (rule nth_map)
  moreover have "[1..<m + 1] ! (i - 1) = i"
    using assms by (simp add: nth_upt del: upt_Suc)
  ultimately show ?thesis by simp
qed


section \<open>The distribution engine\<close>

text \<open>
  Claim C1. For a model built by the constructor from \<open>n\<close> pKa values, the dissociation
  constants are \<open>10\<close> to the power \<open>- pKa\<close>, \<^verbatim>\<open>alpha\<close> returns \<open>n + 1\<close> curves, each as
  long as the grid, and at species \<open>k \<le> n\<close> and grid point \<open>j\<close> the numerator the loop
  builds is the product of the first \<open>k\<close> constants times the hydronium concentration
  to the power \<open>n - k\<close>, and the fraction returned is that numerator over the sum of all
  \<open>n + 1\<close> numerators at the same grid point.
\<close>

theorem alpha_refines_spec:
  assumes "Acid_init pKa_arg c = Inr a" and "k \<le> length pKa_arg" and "j < length pH"
  shows "Ka a = map (\<lambda>p. 10 powr (- p)) pKa_arg
       \<and> length (alpha a) = length pKa_arg + 1
       \<and> length (alpha a ! k) = length pH
       \<and> numerators_on hydronium_concentration a ! k ! j =
           numerator_spec (Ka a) (length pKa_arg) (10 powr (- (pH ! j))) k
       \<and> alpha a ! k ! j = alpha_spec (Ka a) (length pKa_arg) (10 powr (- (pH ! j))) k"
proof -
  note f = Acid_init_fields [OF assms(1)]
  have k: "k \<le> length (pKa a)" using assms(2) by (simp add: f)
  have j: "j < length hydronium_concentration" using assms(3) by (simp add: length_hydronium)
  have h: "hydronium_concentration ! j = 10 powr (- (pH ! j))"
    using assms(3) by (rule nth_hydronium)
  have "length (alpha a) = length pKa_arg + 1"
    by (simp add: alpha_def length_alpha_on f)
  moreover have "length (alpha a ! k) = length pH"
    using k by (simp add: alpha_def length_nth_alpha_on length_hydronium)
  moreover have "numerators_on hydronium_concentration a ! k ! j =
      numerator_spec (Ka a) (length pKa_arg) (10 powr (- (pH ! j))) k"
    using j by (simp add: nth_numerators_on [OF k] h f(1))
  moreover have "alpha a ! k ! j = alpha_spec (Ka a) (length pKa_arg) (10 powr (- (pH ! j))) k"
    using nth_alpha_on [OF k j] by (simp add: alpha_def h f(1))
  ultimately show ?thesis using f(2) by blast
qed

theorem alpha_refines_spec_witness:
  "Acid_init [2] (1/10) = Inr \<lparr>pKa = [2], Ka = [10 powr (- 2)], Ca = 1/10\<rparr>
   \<and> (1::nat) \<le> length [2::real] \<and> 3 < length pH
   \<and> length (alpha \<lparr>pKa = [2], Ka = [10 powr (- 2)], Ca = 1/10\<rparr>) = 2
   \<and> alpha \<lparr>pKa = [2], Ka = [10 powr (- 2)], Ca = 1/10\<rparr> ! 1 ! 3 =
       alpha_spec [10 powr (- 2)] 1 (10 powr (- (pH ! 3))) 1"
proof -
  have i: "Acid_init [2] (1/10) = Inr \<lparr>pKa = [2], Ka = [10 powr (- 2)], Ca = 1/10\<rparr>"
    by (simp add: Acid_init_def)
  have k: "(1::nat) \<le> length [2::real]" by simp
  have j: "3 < length pH" by (simp add: length_pH)
  show ?thesis using i k j alpha_refines_spec [OF i k j] by simp
qed


text \<open>
  Claim C6. With an empty pKa sequence \<^verbatim>\<open>alpha\<close> returns exactly one curve, and its
  value is one at each of the 141 grid points.
\<close>

theorem alpha_no_pKa:
  assumes "Acid_init [] c = Inr a"
  shows "alpha a = [replicate 141 1] \<and> length pH = 141"
proof -
  note f = Acid_init_fields [OF assms]
  have len: "length (alpha a) = 1" by (simp add: alpha_def length_alpha_on f)
  have len0: "length (alpha a ! 0) = 141"
    by (simp add: alpha_def length_nth_alpha_on f length_hydronium length_pH)
  have "alpha a ! 0 ! j = 1" if "j < 141" for j
  proof -
    have "j < length hydronium_concentration" using that by (simp add: length_hydronium length_pH)
    then have "alpha a ! 0 ! j = alpha_spec (Ka a) (length (pKa a)) (hydronium_concentration ! j) 0"
      unfolding alpha_def by (intro nth_alpha_on) simp
    then show ?thesis by (simp add: f alpha_spec_def numerator_spec_def)
  qed
  then have "alpha a ! 0 = replicate 141 1"
    using len0 by (simp add: list_eq_iff_nth_eq)
  moreover have "alpha a = [alpha a ! 0]"
    using len by (cases "alpha a") auto
  ultimately show ?thesis by (simp add: length_pH)
qed

theorem alpha_no_pKa_witness:
  "Acid_init [] (1/10) = Inr \<lparr>pKa = [], Ka = [], Ca = 1/10\<rparr>
   \<and> alpha \<lparr>pKa = [], Ka = [], Ca = 1/10\<rparr> = [replicate 141 1]"
proof -
  have i: "Acid_init [] (1/10) = Inr \<lparr>pKa = [], Ka = [], Ca = 1/10\<rparr>"
    by (simp add: Acid_init_def)
  show ?thesis using i alpha_no_pKa [OF i] by blast
qed

text \<open>
  Claim C8, as stated: for the monoprotic model with pKa 4.76 and concentration 0.05
  the two fractions at pH 4.76 are both within \<open>10\<close> to the \<open>- 6\<close> of 0.5. The grid
  \<^verbatim>\<open>alpha\<close> reads has no point 4.76; its two neighbours are the points 47 and 48,
  pH 4.7 and 4.8, and at neither of them is either fraction that close to 0.5.
\<close>

theorem alpha_off_half_on_grid:
  "Acid_init [4.76] 0.05 = Inr \<lparr>pKa = [4.76], Ka = [10 powr (- 4.76)], Ca = 0.05\<rparr>
   \<and> 4.76 \<notin> set pH \<and> pH ! 47 = 4.7 \<and> pH ! 48 = 4.8
   \<and> \<not> \<bar>alpha \<lparr>pKa = [4.76], Ka = [10 powr (- 4.76)], Ca = 0.05\<rparr> ! 0 ! 47 - 0.5\<bar> \<le> 1 / 10 ^ 6
   \<and> \<not> \<bar>alpha \<lparr>pKa = [4.76], Ka = [10 powr (- 4.76)], Ca = 0.05\<rparr> ! 1 ! 47 - 0.5\<bar> \<le> 1 / 10 ^ 6
   \<and> \<not> \<bar>alpha \<lparr>pKa = [4.76], Ka = [10 powr (- 4.76)], Ca = 0.05\<rparr> ! 0 ! 48 - 0.5\<bar> \<le> 1 / 10 ^ 6
   \<and> \<not> \<bar>alpha \<lparr>pKa = [4.76], Ka = [10 powr (- 4.76)], Ca = 0.05\<rparr> ! 1 ! 48 - 0.5\<bar> \<le> 1 / 10 ^ 6"
proof -
  let ?a = "\<lparr>pKa = [4.76], Ka = [10 powr (- 4.76)], Ca = 0.05\<rparr>"
  define K :: real where "K = 10 powr (- 4.76)"
  define h47 :: real where "h47 = 10 powr (- (real 47 / 10))"
  define h48 :: real where "h48 = 10 powr (- (real 48 / 10))"
  have i: "Acid_init [4.76] 0.05 = Inr ?a" by (simp add: Acid_init_def)
  have K: "0 < K" and h48: "0 < h48" by (simp_all add: K_def h48_def)
  have up: "11 / 10 * K < h47"
    unfolding K_def h47_def by (rule hydronium_above_Ka) simp
  have down: "21 / 20 * h48 < K"
    unfolding K_def h48_def by (rule hydronium_below_Ka) simp
  have a47: "alpha ?a ! 0 ! 47 = h47 / (h47 + K)" "alpha ?a ! 1 ! 47 = K / (h47 + K)"
    unfolding K_def h47_def by (rule monoprotic_alpha_nth [OF i], simp add: length_pH)+
  have a48: "alpha ?a ! 0 ! 48 = h48 / (h48 + K)" "alpha ?a ! 1 ! 48 = K / (h48 + K)"
    unfolding K_def h48_def by (rule monoprotic_alpha_nth [OF i], simp add: length_pH)+
  have "0.52 < alpha ?a ! 0 ! 47" "alpha ?a ! 1 ! 47 < 0.48"
    unfolding a47 using K up by (rule fraction_bounds)+
  moreover have "alpha ?a ! 0 ! 48 < 0.49" "0.51 < alpha ?a ! 1 ! 48"
    unfolding a48 using h48 down by (rule fraction_bounds')+
  moreover have "pH ! 47 = 4.7" "pH ! 48 = 4.8" by (simp_all add: nth_pH)
  ultimately show ?thesis using i pKa_value_off_grid by simp
qed

text \<open>
  Claim C8, amended. For the monoprotic model with pKa 4.76 and concentration 0.05, no
  grid point has pH 4.76. At every grid point up to pH 4.7 the first fraction is above
  0.52 and the second below 0.48; at every grid point from pH 4.8 on the first is below
  0.49 and the second above 0.51: the curves cross between two grid points. The value
  one half for both fractions is what the computation of \<^verbatim>\<open>alpha\<close> gives on the
  hydronium concentration of pH 4.76, which equals the dissociation constant.
\<close>

theorem alpha_crosses_off_grid:
  assumes "Acid_init [4.76] 0.05 = Inr a" and "j < length pH"
  shows "pH ! j \<noteq> 4.76
       \<and> (j \<le> 47 \<longrightarrow> 0.52 < alpha a ! 0 ! j \<and> alpha a ! 1 ! j < 0.48)
       \<and> (48 \<le> j \<longrightarrow> alpha a ! 0 ! j < 0.49 \<and> 0.51 < alpha a ! 1 ! j)
       \<and> alpha_on [10 powr (- 4.76)] a = [[1 / 2], [1 / 2]]"
proof -
  define K :: real where "K = 10 powr (- 4.76)"
  define h :: real where "h = 10 powr (- (real j / 10))"
  have K: "0 < K" and h: "0 < h" by (simp_all add: K_def h_def)
  have al: "alpha a ! 0 ! j = h / (h + K)" "alpha a ! 1 ! j = K / (h + K)"
    unfolding K_def h_def by (rule monoprotic_alpha_nth [OF assms])+
  have "pH ! j \<in> set pH" using assms(2) by simp
  then have off: "pH ! j \<noteq> 4.76" using pKa_value_off_grid by metis
  have left: "0.52 < alpha a ! 0 ! j \<and> alpha a ! 1 ! j < 0.48" if "j \<le> 47"
  proof -
    have "11 / 10 * K < h" unfolding K_def h_def using that by (rule hydronium_above_Ka)
    with K have "0.52 < h / (h + K)" and "K / (h + K) < 0.48" by (rule fraction_bounds)+
    then show ?thesis unfolding al by (rule conjI)
  qed
  have right: "alpha a ! 0 ! j < 0.49 \<and> 0.51 < alpha a ! 1 ! j" if "48 \<le> j"
  proof -
    have "21 / 20 * h < K" unfolding K_def h_def using that by (rule hydronium_below_Ka)
    with h have "h / (h + K) < 0.49" and "0.51 < K / (h + K)" by (rule fraction_bounds')+
    then show ?thesis unfolding al by (rule conjI)
  qed
  have a: "a = \<lparr>pKa = [4.76], Ka = [K], Ca = 0.05\<rparr>"
    using assms(1) by (auto simp: Acid_init_def K_def)
  have "numerators_on [K] a = [[K], [K]]"
    by (simp add: a numerators_on_def reduce_mul_def)
  moreover have "py_sum 1 [[K], [K]] = [K + K]"
    by (simp add: py_sum_def)
  ultimately have "alpha_on [K] a = [[K / (K + K)], [K / (K + K)]]"
    by (simp add: alpha_on_def)
  moreover have "K / (K + K) = 1 / 2" using K by (simp add: field_simps)
  ultimately have "alpha_on [K] a = [[1 / 2], [1 / 2]]" by simp
  then have "alpha_on [10 powr (- 4.76)] a = [[1 / 2], [1 / 2]]" unfolding K_def .
  with off left right show ?thesis by blast
qed

theorem alpha_crosses_off_grid_witness:
  "Acid_init [4.76] 0.05 = Inr \<lparr>pKa = [4.76], Ka = [10 powr (- 4.76)], Ca = 0.05\<rparr>
   \<and> 47 < length pH \<and> 48 < length pH \<and> (47::nat) \<le> 47 \<and> (48::nat) \<le> 48
   \<and> pH ! 47 \<noteq> 4.76 \<and> pH ! 48 \<noteq> 4.76
   \<and> 0.52 < alpha \<lparr>pKa = [4.76], Ka = [10 powr (- 4.76)], Ca = 0.05\<rparr> ! 0 ! 47
   \<and> alpha \<lparr>pKa = [4.76], Ka = [10 powr (- 4.76)], Ca = 0.05\<rparr> ! 1 ! 47 < 0.48
   \<and> alpha \<lparr>pKa = [4.76], Ka = [10 powr (- 4.76)], Ca = 0.05\<rparr> ! 0 ! 48 < 0.49
   \<and> 0.51 < alpha \<lparr>pKa = [4.76], Ka = [10 powr (- 4.76)], Ca = 0.05\<rparr> ! 1 ! 48"
proof -
  have i: "Acid_init [4.76] 0.05 = Inr \<lparr>pKa = [4.76], Ka = [10 powr (- 4.76)], Ca = 0.05\<rparr>"
    by (simp add: Acid_init_def)
  have j: "47 < length pH" and j': "48 < length pH" by (simp_all add: length_pH)
  show ?thesis
    using i j j' alpha_crosses_off_grid [OF i j] alpha_crosses_off_grid [OF i j'] by simp
qed






section \<open>The constructor\<close>

text \<open>
  Claim C2, as stated: constructing a model with a concentration that is zero or
  negative fails. The constructor has no check: with concentration 0 and with
  concentration \<open>- 1\<close> it returns a model.
\<close>

theorem Acid_init_accepts_nonpositive:
  "(0::real) \<le> 0 \<and> Acid_init [] 0 = Inr \<lparr>pKa = [], Ka = [], Ca = 0\<rparr>
   \<and> (- 1::real) \<le> 0 \<and> Acid_init [] (- 1) = Inr \<lparr>pKa = [], Ka = [], Ca = - 1\<rparr>
   \<and> Acid_init [] 0 \<noteq> Inl ValueError \<and> Acid_init [] (- 1) \<noteq> Inl ValueError"
  by (simp add: Acid_init_def)

text \<open>
  Claim C2, amended. For every pKa sequence and every concentration, zero and negative
  ones included, construction returns a model: it stores the pKa values and the
  concentration as given, and the dissociation constants \<open>10\<close> to the power \<open>- pKa\<close>.
\<close>

theorem Acid_init_never_fails:
  "\<exists>a. Acid_init pKa_arg c = Inr a \<and> pKa a = pKa_arg
       \<and> Ka a = map (\<lambda>p. 10 powr (- p)) pKa_arg \<and> Ca a = c"
  by (simp add: Acid_init_def)


section \<open>Species labeling\<close>

text \<open>
  Claim C4, as stated: for two pKa values the raw labels are \<^verbatim>\<open>H2A\<close>, \<^verbatim>\<open>HA-\<close>
  and \<^verbatim>\<open>A2-\<close>. The last label the code returns is \<^verbatim>\<open>A-2\<close>: a charge other than
  0 and \<open>- 1\<close> is rendered as the signed integer.
\<close>

theorem diprotic_raw_labels_differ:
  "length [2, 7 :: real] = 2
   \<and> formulas (\<lambda>f. f) (\<lambda>f. f) \<lparr>pKa = [2, 7], Ka = [10 powr (- 2), 10 powr (- 7)], Ca = 1\<rparr> ''raw''
       = Inr [''H2A'', ''HA-'', ''A-2'']
   \<and> formulas (\<lambda>f. f) (\<lambda>f. f) \<lparr>pKa = [2, 7], Ka = [10 powr (- 2), 10 powr (- 7)], Ca = 1\<rparr> ''raw''
       \<noteq> Inr [''H2A'', ''HA-'', ''A2-'']"
proof -
  let ?a = "\<lparr>pKa = [2, 7], Ka = [10 powr (- 2), 10 powr (- 7)], Ca = 1\<rparr>"
  have "length (alpha ?a) = 3" by (simp add: alpha_def length_alpha_on)
  then have "formulas (\<lambda>f. f) (\<lambda>f. f) ?a ''raw'' = Inr (map replace_B_A (labels_of 3))"
    by (simp add: formulas_def)
  then have "formulas (\<lambda>f. f) (\<lambda>f. f) ?a ''raw'' = Inr [''H2A'', ''HA-'', ''A-2'']"
    by (simp add: labels_of_3 replace_B_A_def)
  then show ?thesis by simp
qed

text \<open>
  Claim C4, amended. For a model with exactly two pKa values, \<^verbatim>\<open>formulas\<close> with the
  output \<^verbatim>\<open>raw\<close> returns exactly the list \<^verbatim>\<open>H2A\<close>, \<^verbatim>\<open>HA-\<close>, \<^verbatim>\<open>A-2\<close>, most
  protonated species first.
\<close>

theorem diprotic_raw_labels:
  assumes "length (pKa a) = 2"
  shows "formulas latex_name html_name a ''raw'' = Inr [''H2A'', ''HA-'', ''A-2'']"
proof -
  have "length (alpha a) = 3" using assms by (simp add: alpha_def length_alpha_on)
  then have "formulas latex_name html_name a ''raw'' = Inr (map replace_B_A (labels_of 3))"
    by (simp add: formulas_def)
  then show ?thesis by (simp add: labels_of_3 replace_B_A_def)
qed

theorem diprotic_raw_labels_witness:
  "length (pKa \<lparr>pKa = [2, 7], Ka = [10 powr (- 2), 10 powr (- 7)], Ca = 1\<rparr>) = 2
   \<and> formulas (\<lambda>f. f) (\<lambda>f. f) \<lparr>pKa = [2, 7], Ka = [10 powr (- 2), 10 powr (- 7)], Ca = 1\<rparr> ''raw''
       = Inr [''H2A'', ''HA-'', ''A-2'']"
proof -
  have l: "length (pKa \<lparr>pKa = [2, 7], Ka = [10 powr (- 2), 10 powr (- 7)], Ca = 1\<rparr>) = 2"
    by simp
  show ?thesis using l diprotic_raw_labels [OF l] by blast
qed


text \<open>
  Claim C5, as stated: with \<open>n + 1\<close> species the charge at position \<open>i\<close> is
  \<open>(n + 1) - (n + i - 1)\<close>. That expression is \<open>2 - i\<close>, which is 1 at the first
  position, where the code assigns the charge 0.
\<close>

theorem charge_formula_off_by_one:
  "charge_of (2 + 1) 1 = 0 \<and> (2 + 1) - (2 + 1 - 1) = (1::int)
   \<and> charge_of (2 + 1) 1 \<noteq> (2 + 1) - (2 + 1 - 1)"
  by (simp add: charge_of_def)

text \<open>
  Claim C5, amended. For a model with \<open>n\<close> pKa values, \<^verbatim>\<open>formulas\<close> with the output
  \<^verbatim>\<open>raw\<close> returns the \<open>n + 1\<close> labels of the loop with the letter B replaced. The
  label at the 1-indexed position \<open>i\<close>, \<open>i\<close> from 1 to \<open>n + 1\<close>, is the formula of the
  species with \<open>n + 1 - i\<close> hydrogens followed by the rendering of the charge \<open>1 - i\<close>.
  That charge is \<open>(n + 1) - ((n + 1) + i - 1)\<close>: 0 for the fully protonated species,
  lower by exactly one at each later position, and \<open>- n\<close> at the last position.
\<close>

theorem charge_by_position:
  assumes "1 \<le> i" and "i \<le> n + 1" and "length (pKa a) = n"
  shows "formulas latex_name html_name a ''raw'' = Inr (map replace_B_A (labels_of (n + 1)))
       \<and> length (labels_of (n + 1)) = n + 1
       \<and> labels_of (n + 1) ! (i - 1) =
           (if int n + 1 - int i = 0 then ''B''
            else if int n + 1 - int i = 1 then ''HB''
            else ''H'' @ str_int (int n + 1 - int i) @ ''B'') @ charge_str (1 - int i)
       \<and> labels_of (n + 1) ! (i - 1) = label_at (int n + 1) (int i)
       \<and> charge_of (int n + 1) (int i) = (int n + 1) - ((int n + 1) + int i - 1)
       \<and> charge_of (int n + 1) (int i) = 1 - int i
       \<and> charge_of (int n + 1) 1 = 0
       \<and> charge_of (int n + 1) (int i + 1) = charge_of (int n + 1) (int i) - 1
       \<and> charge_of (int n + 1) (int n + 1) = - int n"
proof -
  have "length (alpha a) = n + 1" using assms(3) by (simp add: alpha_def length_alpha_on)
  then have raw: "formulas latex_name html_name a ''raw'' = Inr (map replace_B_A (labels_of (n + 1)))"
    by (simp add: formulas_def)
  have "labels_of (n + 1) ! (i - 1) = label_at (int (n + 1)) (int i)"
    using assms(1,2) by (rule nth_labels_of)
  moreover have "int (n + 1) = int n + 1" by simp
  ultimately have nth: "labels_of (n + 1) ! (i - 1) = label_at (int n + 1) (int i)"
    by (simp only:)
  have ch: "charge_of (int n + 1) (int i) = 1 - int i" by (simp add: charge_of_def)
  have lab: "label_at (int n + 1) (int i) =
           (if int n + 1 - int i = 0 then ''B''
            else if int n + 1 - int i = 1 then ''HB''
            else ''H'' @ str_int (int n + 1 - int i) @ ''B'') @ charge_str (1 - int i)"
    unfolding label_at_def Let_def ch by simp
  have len: "length (labels_of (n + 1)) = n + 1" by (rule length_labels_of)
  have rest: "charge_of (int n + 1) (int i) = (int n + 1) - ((int n + 1) + int i - 1)"
    "charge_of (int n + 1) 1 = 0"
    "charge_of (int n + 1) (int i + 1) = charge_of (int n + 1) (int i) - 1"
    "charge_of (int n + 1) (int n + 1) = - int n"
    by (simp_all add: charge_of_def)
  from raw len nth lab ch rest show ?thesis by (simp only:)
qed

theorem charge_by_position_witness:
  "(1::nat) \<le> 3 \<and> (3::nat) \<le> 2 + 1
   \<and> length (pKa \<lparr>pKa = [2, 7], Ka = [10 powr (- 2), 10 powr (- 7)], Ca = 1\<rparr>) = 2
   \<and> labels_of (2 + 1) ! (3 - 1) = ''B'' @ charge_str (- 2)
   \<and> charge_of (int 2 + 1) (int 3) = - 2"
proof -
  let ?a = "\<lparr>pKa = [2, 7], Ka = [10 powr (- 2), 10 powr (- 7)], Ca = 1\<rparr>"
  have a: "(1::nat) \<le> 3" by simp
  have b: "(3::nat) \<le> 2 + 1" by simp
  have c: "length (pKa ?a) = 2" by simp
  show ?thesis using a b c charge_by_position [OF a b c] by simp
qed


text \<open>
  Claim C9. For every model, \<^verbatim>\<open>formulas\<close> with an output string other than
  \<^verbatim>\<open>raw\<close>, \<^verbatim>\<open>latex\<close> and \<^verbatim>\<open>html\<close> fails with \<^verbatim>\<open>ValueError\<close>, the
  invalid-argument error of the source, and with each of these three it returns a list
  of \<open>n + 1\<close> strings.
\<close>

theorem formulas_output:
  "(output \<notin> {''raw'', ''latex'', ''html''} \<longrightarrow>
      formulas latex_name html_name a output = Inl ValueError)
   \<and> (output \<in> {''raw'', ''latex'', ''html''} \<longrightarrow>
      (\<exists>labels. formulas latex_name html_name a output = Inr labels
         \<and> length labels = length (pKa a) + 1))"
  by (auto simp: formulas_def alpha_def length_alpha_on length_labels_of)

theorem formulas_output_witness:
  "''bogus'' \<notin> {''raw'', ''latex'', ''html''}
   \<and> formulas (\<lambda>f. f) (\<lambda>f. f) \<lparr>pKa = [2, 7], Ka = [10 powr (- 2), 10 powr (- 7)], Ca = 1\<rparr> ''bogus''
       = Inl ValueError
   \<and> ''html'' \<in> {''raw'', ''latex'', ''html''}
   \<and> (\<exists>labels. formulas (\<lambda>f. f) (\<lambda>f. f)
          \<lparr>pKa = [2, 7], Ka = [10 powr (- 2), 10 powr (- 7)], Ca = 1\<rparr> ''html'' = Inr labels
        \<and> length labels = 3)"
proof -
  let ?a = "\<lparr>pKa = [2, 7], Ka = [10 powr (- 2), 10 powr (- 7)], Ca = 1\<rparr>"
  have n: "''bogus'' \<notin> {''raw'', ''latex'', ''html''}" by simp
  have y: "''html'' \<in> {''raw'', ''latex'', ''html''}" by simp
  have l: "length (pKa ?a) + 1 = 3" by simp
  from n formulas_output [of "''bogus''" "\<lambda>f. f" "\<lambda>f. f" ?a]
  have 1: "formulas (\<lambda>f. f) (\<lambda>f. f) ?a ''bogus'' = Inl ValueError" by blast
  from y formulas_output [of "''html''" "\<lambda>f. f" "\<lambda>f. f" ?a]
  have "\<exists>labels. formulas (\<lambda>f. f) (\<lambda>f. f) ?a ''html'' = Inr labels
          \<and> length labels = length (pKa ?a) + 1" by blast
  then have 2: "\<exists>labels. formulas (\<lambda>f. f) (\<lambda>f. f) ?a ''html'' = Inr labels \<and> length labels = 3"
    unfolding l .
  from n y 1 2 show ?thesis by blast
qed

end
